theory Spec2Isabelle
  imports Complex_Main
begin

section \<open>Conway's Game of Life: the simulation engine and the canvas mapper\<close>

text \<open>
  A shallow embedding of \<^verbatim>\<open>src/js/game-of-life.js\<close> (class \<^verbatim>\<open>GameOfLife\<close>)
  and of the layout part of the canvas renderer (class \<^verbatim>\<open>CanvasRenderer\<close>:
  \<^verbatim>\<open>calculateCellSize\<close> and \<^verbatim>\<open>canvasToGrid\<close>).

  JavaScript arrays are objects that are reached through references: the engine swaps
  its two buffers by exchanging references, and \<^verbatim>\<open>getGridState\<close> hands out a newly
  allocated array. The arrays therefore live in an explicit heap, a function from
  references to array contents, and the engine holds references into it.

  Grid coordinates, sizes and indices are JavaScript numbers that hold integers; they
  are modelled as \<open>int\<close>. The generation counter only counts up from zero and is a
  \<open>nat\<close>.
\<close>

subsection \<open>JavaScript arrays of booleans\<close>

type_synonym ref = nat

text \<open>
  Reading \<^verbatim>\<open>a[i]\<close> outside the array gives \<^verbatim>\<open>undefined\<close>, which every test of
  the source (\<^verbatim>\<open>if (...)\<close>, \<^verbatim>\<open>cell ? 1 : 0\<close>, \<^verbatim>\<open>!cell\<close>) treats as false.
\<close>

definition arr_get :: "bool list \<Rightarrow> int \<Rightarrow> bool" where
  "arr_get a i = (if 0 \<le> i \<and> i < int (length a) then a ! nat i else False)"

text \<open>
  Writing \<^verbatim>\<open>a[i] = v\<close> at or beyond the length extends the array; the holes in
  between read as \<^verbatim>\<open>undefined\<close>, that is, as false. A negative index names a
  property, not an element, and leaves the elements alone.
\<close>

definition arr_set :: "bool list \<Rightarrow> int \<Rightarrow> bool \<Rightarrow> bool list" where
  "arr_set a i v =
     (if i < 0 then a
      else if nat i < length a then a[nat i := v]
      else a @ replicate (nat i - length a) False @ [v])"

text \<open>\<^verbatim>\<open>a.fill(v)\<close>\<close>

definition arr_fill :: "bool list \<Rightarrow> bool \<Rightarrow> bool list" where
  "arr_fill a v = map (\<lambda>_. v) a"

subsection \<open>The engine\<close>

record GameOfLife =
  width :: int
  height :: int
  generation :: nat
  currentGrid :: ref
  nextGrid :: ref
  heap :: "ref \<Rightarrow> bool list"
  heap_next :: ref

text \<open>
  \<open>heap\<close> holds the contents of every array, \<open>heap_next\<close> is the first reference
  that has not been handed out yet. The other fields are the fields of the object.
\<close>

datatype error = RangeError | TypeError

text \<open>
  The constructor. \<^verbatim>\<open>new Array(n)\<close> throws a \<^verbatim>\<open>RangeError\<close> unless \<open>n\<close> is an
  integer from \<open>0\<close> to \<open>2^32 - 1\<close>. The engine is built in a heap \<open>hp\<close> whose first
  free reference is \<open>n\<close>.
\<close>

definition new_GameOfLife ::
  "int \<Rightarrow> int \<Rightarrow> (ref \<Rightarrow> bool list) \<Rightarrow> ref \<Rightarrow> error + GameOfLife" where
  "new_GameOfLife w h hp n =
     (if w * h < 0 \<or> 2 ^ 32 \<le> w * h then Inl RangeError
      else Inr \<lparr>width = w, height = h, generation = 0,
                currentGrid = n, nextGrid = Suc n,
                heap = hp(n := replicate (nat (w * h)) False,
                          Suc n := replicate (nat (w * h)) False),
                heap_next = Suc (Suc n)\<rparr>)"

definition getIndex :: "GameOfLife \<Rightarrow> int \<Rightarrow> int \<Rightarrow> int" where
  "getIndex s x y = y * width s + x"

definition getCell :: "GameOfLife \<Rightarrow> int \<Rightarrow> int \<Rightarrow> bool" where
  "getCell s x y =
     (if x < 0 \<or> x \<ge> width s \<or> y < 0 \<or> y \<ge> height s then False
      else arr_get (heap s (currentGrid s)) (getIndex s x y))"

text \<open>The assignment \<^verbatim>\<open>r[i] = v\<close> to the array behind reference \<open>r\<close>.\<close>

definition write_arr :: "GameOfLife \<Rightarrow> ref \<Rightarrow> int \<Rightarrow> bool \<Rightarrow> GameOfLife" where
  "write_arr s r i v = s\<lparr>heap := (heap s)(r := arr_set (heap s r) i v)\<rparr>"

definition setCell :: "GameOfLife \<Rightarrow> int \<Rightarrow> int \<Rightarrow> bool \<Rightarrow> GameOfLife" where
  "setCell s x y alive =
     (if x \<ge> 0 \<and> x < width s \<and> y \<ge> 0 \<and> y < height s
      then write_arr s (currentGrid s) (getIndex s x y) alive
      else s)"

definition toggleCell :: "GameOfLife \<Rightarrow> int \<Rightarrow> int \<Rightarrow> GameOfLife" where
  "toggleCell s x y =
     (if x \<ge> 0 \<and> x < width s \<and> y \<ge> 0 \<and> y < height s
      then (let index = getIndex s x y
            in write_arr s (currentGrid s) index
                 (\<not> arr_get (heap s (currentGrid s)) index))
      else s)"

text \<open>
  The two nested loops over \<open>dy\<close> and \<open>dx\<close> from \<open>-1\<close> to \<open>1\<close>; \<^verbatim>\<open>continue\<close>
  keeps the count.
\<close>

definition countNeighbors :: "GameOfLife \<Rightarrow> int \<Rightarrow> int \<Rightarrow> nat" where
  "countNeighbors s x y =
     fold (\<lambda>dy count.
        fold (\<lambda>dx count.
           if dx = 0 \<and> dy = 0 then count
           else if getCell s (x + dx) (y + dy) then count + 1
           else count) [-1, 0, 1] count) [-1, 0, 1] 0"

text \<open>The body of the inner loop of \<^verbatim>\<open>step\<close>, for the cell \<open>(x, y)\<close>.\<close>

definition step_cell :: "GameOfLife \<Rightarrow> int \<Rightarrow> int \<Rightarrow> GameOfLife" where
  "step_cell s x y =
     (let neighbors = countNeighbors s x y;
          currentlyAlive = getCell s x y;
          index = getIndex s x y
      in if currentlyAlive
         then write_arr s (nextGrid s) index (neighbors = 2 \<or> neighbors = 3)
         else write_arr s (nextGrid s) index (neighbors = 3))"

text \<open>
  \<^verbatim>\<open>for (let y = 0; y < this.height; y++) for (let x = 0; x < this.width; x++)\<close>:
  the bounds are fields that the body never assigns, so each loop runs over the
  integers \<open>[0..bound - 1]\<close>. The state is threaded through every iteration: the body
  reads the current buffer and writes the next buffer of the state it is handed.
\<close>

definition step_row :: "GameOfLife \<Rightarrow> int \<Rightarrow> GameOfLife" where
  "step_row s y = fold (\<lambda>x s. step_cell s x y) [0..width s - 1] s"

definition step_fill :: "GameOfLife \<Rightarrow> GameOfLife" where
  "step_fill s = fold (\<lambda>y s. step_row s y) [0..height s - 1] s"

definition step :: "GameOfLife \<Rightarrow> GameOfLife" where
  "step s =
     (let s1 = step_fill s
      in s1\<lparr>currentGrid := nextGrid s1, nextGrid := currentGrid s1,
             generation := generation s1 + 1\<rparr>)"

definition clear :: "GameOfLife \<Rightarrow> GameOfLife" where
  "clear s =
     s\<lparr>heap := (heap s)(currentGrid s := arr_fill (heap s (currentGrid s)) False),
       generation := 0\<rparr>"

text \<open>
  \<^verbatim>\<open>randomize\<close> draws one number per cell from \<^verbatim>\<open>Math.random()\<close>; the model takes
  the sequence of draws as a parameter. The loop writes below the length it starts
  with, so the bound \<^verbatim>\<open>this.currentGrid.length\<close> stays what it was.
\<close>

definition randomize :: "GameOfLife \<Rightarrow> (nat \<Rightarrow> real) \<Rightarrow> GameOfLife" where
  "randomize s draws =
     (fold (\<lambda>i s. write_arr s (currentGrid s) (int i) (draws i < 3 / 10))
        [0..<length (heap s (currentGrid s))] s)\<lparr>generation := 0\<rparr>"

text \<open>\<^verbatim>\<open>reduce\<close> runs from the left, starting at \<open>0\<close>.\<close>

definition getPopulation :: "GameOfLife \<Rightarrow> nat" where
  "getPopulation s =
     foldl (\<lambda>count cell. count + (if cell then 1 else 0)) 0 (heap s (currentGrid s))"

definition getGeneration :: "GameOfLife \<Rightarrow> nat" where
  "getGeneration s = generation s"

text \<open>
  \<^verbatim>\<open>[...this.currentGrid]\<close> allocates a new array with the same elements. The result
  is the reference to it, together with the state whose heap holds it.
\<close>

definition getGridState :: "GameOfLife \<Rightarrow> ref \<times> GameOfLife" where
  "getGridState s =
     (heap_next s,
      s\<lparr>heap := (heap s)(heap_next s := heap s (currentGrid s)),
        heap_next := Suc (heap_next s)\<rparr>)"

text \<open>The object literal \<^verbatim>\<open>patterns\<close>: its own four properties.\<close>

definition patterns :: "string \<Rightarrow> int list list option" where
  "patterns = map_of
     [(''glider'',  [[0, 1, 0],
                     [0, 0, 1],
                     [1, 1, 1]]),
      (''blinker'', [[1, 1, 1]]),
      (''toad'',    [[0, 1, 1, 1],
                     [1, 1, 1, 0]]),
      (''beacon'',  [[1, 1, 0, 0],
                     [1, 1, 0, 0],
                     [0, 0, 1, 1],
                     [0, 0, 1, 1]])]"

text \<open>
  What \<^verbatim>\<open>patterns[pattern]\<close> can evaluate to: \<^verbatim>\<open>undefined\<close>, one of the templates,
  or a property that the object literal inherits from \<^verbatim>\<open>Object.prototype\<close>. An
  inherited property is a function, of which only the \<^verbatim>\<open>length\<close> (its number of
  parameters) matters here, or, for \<^verbatim>\<open>__proto__\<close>, the prototype object itself.
\<close>

datatype js_value = Undefined | Rows "int list list" | Function nat | Object

text \<open>
  The properties of \<^verbatim>\<open>Object.prototype\<close> in ECMAScript, with the accessors of its
  Annex B that browsers provide, and the \<^verbatim>\<open>length\<close> of each function.
\<close>

definition Object_prototype :: "string \<Rightarrow> js_value option" where
  "Object_prototype = map_of
     [(''constructor'', Function 1),
      (''hasOwnProperty'', Function 1),
      (''isPrototypeOf'', Function 1),
      (''propertyIsEnumerable'', Function 1),
      (''toLocaleString'', Function 0),
      (''toString'', Function 0),
      (''valueOf'', Function 0),
      (''__defineGetter__'', Function 2),
      (''__defineSetter__'', Function 2),
      (''__lookupGetter__'', Function 1),
      (''__lookupSetter__'', Function 1),
      (''__proto__'', Object)]"

text \<open>The property access \<^verbatim>\<open>patterns[pattern]\<close>: own properties first, then the prototype.\<close>

definition patterns_get :: "string \<Rightarrow> js_value" where
  "patterns_get pattern =
     (case patterns pattern of
        Some patternData \<Rightarrow> Rows patternData
      | None \<Rightarrow> (case Object_prototype pattern of Some v \<Rightarrow> v | None \<Rightarrow> Undefined))"

text \<open>
  The inner loop of \<^verbatim>\<open>loadPattern\<close> for row \<open>y\<close> of the template, and
  \<^verbatim>\<open>loadPattern\<close> itself. The defaults \<open>0\<close> of \<^verbatim>\<open>startX\<close> and \<^verbatim>\<open>startY\<close> are
  left to the caller.
\<close>

definition stamp_row :: "int list list \<Rightarrow> int \<Rightarrow> int \<Rightarrow> GameOfLife \<Rightarrow> nat \<Rightarrow> GameOfLife" where
  "stamp_row patternData startX startY s y =
     fold (\<lambda>x s. if patternData ! y ! x = 1
                  then setCell s (startX + int x) (startY + int y) True
                  else s)
       [0..<length (patternData ! y)] s"

text \<open>
  The result is the exception the call ends with, if any, and the state it leaves.
  \<^item> \<^verbatim>\<open>undefined\<close> is falsy: the guard \<^verbatim>\<open>if (!patternData) return\<close> returns.
  \<^item> A template is stamped row by row.
  \<^item> A function is truthy and passes the guard. With \<^verbatim>\<open>length\<close> 0 the outer loop
    does not run. Otherwise its first iteration reads \<^verbatim>\<open>patternData[0]\<close>, which is
    \<^verbatim>\<open>undefined\<close>, and \<^verbatim>\<open>patternData[0].length\<close> throws a \<^verbatim>\<open>TypeError\<close>; no cell
    has been written by then.
  \<^item> The prototype object is truthy and has no \<^verbatim>\<open>length\<close>: \<^verbatim>\<open>0 < undefined\<close> is
    false and the outer loop does not run.
\<close>

definition loadPattern ::
  "GameOfLife \<Rightarrow> string \<Rightarrow> int \<Rightarrow> int \<Rightarrow> error option \<times> GameOfLife" where
  "loadPattern s pattern startX startY =
     (let s1 = clear s
      in case patterns_get pattern of
           Undefined \<Rightarrow> (None, s1)
         | Rows patternData \<Rightarrow>
             (None, fold (\<lambda>y s. stamp_row patternData startX startY s y)
                      [0..<length patternData] s1)
         | Function n \<Rightarrow> if 0 < n then (Some TypeError, s1) else (None, s1)
         | Object \<Rightarrow> (None, s1))"

subsection \<open>The canvas renderer: layout and pointer mapping\<close>

text \<open>
  The fields of \<^verbatim>\<open>CanvasRenderer\<close> that the layout uses. \<^verbatim>\<open>logicalWidth\<close> and
  \<^verbatim>\<open>logicalHeight\<close> are \<^verbatim>\<open>undefined\<close> until \<^verbatim>\<open>setupHighDPI\<close> has run. The
  engine \<^verbatim>\<open>this.game\<close> and the window's \<^verbatim>\<open>innerWidth\<close> and \<^verbatim>\<open>innerHeight\<close> are
  parameters. Viewport sizes are integers; pointer coordinates and the bounding
  rectangle may be fractional, and JavaScript's numbers are taken as real numbers.
\<close>

record CanvasRenderer =
  cellSize :: int
  showGrid :: bool
  offsetX :: int
  offsetY :: int
  logicalWidth :: "int option"
  logicalHeight :: "int option"

text \<open>\<^verbatim>\<open>a || b\<close> on numbers: \<^verbatim>\<open>undefined\<close> and \<open>0\<close> are falsy.\<close>

definition js_or :: "int option \<Rightarrow> int \<Rightarrow> int" where
  "js_or a b = (case a of None \<Rightarrow> b | Some v \<Rightarrow> if v = 0 then b else v)"

definition availableWidth :: "CanvasRenderer \<Rightarrow> int \<Rightarrow> int" where
  "availableWidth r innerWidth = js_or (logicalWidth r) innerWidth"

definition availableHeight :: "CanvasRenderer \<Rightarrow> int \<Rightarrow> int" where
  "availableHeight r innerHeight = js_or (logicalHeight r) innerHeight"

text \<open>
  \<^verbatim>\<open>calculateCellSize\<close>. The quotients are taken for a grid with at least one column
  and one row (for a dimension of 0 JavaScript divides to \<^verbatim>\<open>Infinity\<close> or \<^verbatim>\<open>NaN\<close>).
\<close>

definition calculateCellSize ::
  "CanvasRenderer \<Rightarrow> GameOfLife \<Rightarrow> int \<Rightarrow> int \<Rightarrow> CanvasRenderer" where
  "calculateCellSize r game innerWidth innerHeight =
     (let maxCellWidth = \<lfloor>real_of_int (availableWidth r innerWidth) / real_of_int (width game)\<rfloor>;
          maxCellHeight = \<lfloor>real_of_int (availableHeight r innerHeight) / real_of_int (height game)\<rfloor>;
          r1 = r\<lparr>cellSize := min (min maxCellWidth maxCellHeight) 20\<rparr>;
          r2 = (if cellSize r1 < 4
                then r1\<lparr>cellSize := 4, showGrid := False\<rparr>
                else r1\<lparr>showGrid := (cellSize r1 \<ge> 6)\<rparr>);
          gridWidth = width game * cellSize r2;
          gridHeight = height game * cellSize r2
      in r2\<lparr>offsetX := \<lfloor>real_of_int (availableWidth r innerWidth - gridWidth) / 2\<rfloor>,
             offsetY := \<lfloor>real_of_int (availableHeight r innerHeight - gridHeight) / 2\<rfloor>\<rparr>)"

text \<open>
  \<^verbatim>\<open>canvasToGrid\<close>; \<open>rect_left\<close> and \<open>rect_top\<close> are the corner of
  \<^verbatim>\<open>canvas.getBoundingClientRect()\<close>. The cell size is never 0: it starts at 10,
  \<^verbatim>\<open>calculateCellSize\<close> keeps it from 4 to 20 and \<^verbatim>\<open>updateSettings\<close> from 1 to 50.
\<close>

definition canvasToGrid ::
  "CanvasRenderer \<Rightarrow> GameOfLife \<Rightarrow> real \<Rightarrow> real \<Rightarrow> real \<Rightarrow> real \<Rightarrow> int \<times> int" where
  "canvasToGrid r game rect_left rect_top canvasX canvasY =
     (let x = \<lfloor>(canvasX - rect_left - real_of_int (offsetX r)) / real_of_int (cellSize r)\<rfloor>;
          y = \<lfloor>(canvasY - rect_top - real_of_int (offsetY r)) / real_of_int (cellSize r)\<rfloor>
      in (max 0 (min x (width game - 1)), max 0 (min y (height game - 1))))"

subsection \<open>Well-formed engines\<close>

text \<open>
  What the constructor establishes for non-negative dimensions and every method keeps:
  two different, allocated buffers of \<open>width * height\<close> cells each.
\<close>

definition well_formed :: "GameOfLife \<Rightarrow> bool" where
  "well_formed s \<longleftrightarrow>
     0 \<le> width s \<and> 0 \<le> height s \<and>
     currentGrid s \<noteq> nextGrid s \<and>
     currentGrid s < heap_next s \<and> nextGrid s < heap_next s \<and>
     length (heap s (currentGrid s)) = nat (width s * height s) \<and>
     length (heap s (nextGrid s)) = nat (width s * height s)"

definition in_bounds :: "GameOfLife \<Rightarrow> int \<Rightarrow> int \<Rightarrow> bool" where
  "in_bounds s x y \<longleftrightarrow> 0 \<le> x \<and> x < width s \<and> 0 \<le> y \<and> y < height s"

subsection \<open>Auxiliary notions for the proofs\<close>

text \<open>The value that \<open>step_cell\<close> writes for the cell \<open>(x, y)\<close>.\<close>

definition next_alive :: "GameOfLife \<Rightarrow> int \<Rightarrow> int \<Rightarrow> bool" where
  "next_alive s x y =
     (if getCell s x y then countNeighbors s x y = 2 \<or> countNeighbors s x y = 3
      else countNeighbors s x y = 3)"

text \<open>The fields of the object that the loops of \<open>step\<close> never assign.\<close>

definition same_engine :: "GameOfLife \<Rightarrow> GameOfLife \<Rightarrow> bool" where
  "same_engine s0 s \<longleftrightarrow>
     width s = width s0 \<and> height s = height s0 \<and> generation s = generation s0 \<and>
     currentGrid s = currentGrid s0 \<and> nextGrid s = nextGrid s0 \<and>
     heap_next s = heap_next s0"

text \<open>
  The loop invariant of \<open>step\<close>: started in \<open>s0\<close>, the loops have reached \<open>s\<close> after
  processing the cells in \<open>D\<close>. Only the next buffer has changed, it has kept its
  length, and it holds the successor value of every processed cell.
\<close>

definition filled :: "GameOfLife \<Rightarrow> (int \<times> int) set \<Rightarrow> GameOfLife \<Rightarrow> bool" where
  "filled s0 D s \<longleftrightarrow>
     same_engine s0 s \<and>
     (\<forall>r. r \<noteq> nextGrid s0 \<longrightarrow> heap s r = heap s0 r) \<and>
     length (heap s (nextGrid s0)) = length (heap s0 (nextGrid s0)) \<and>
     (\<forall>x y. (x, y) \<in> D \<longrightarrow> in_bounds s0 x y \<longrightarrow>
        arr_get (heap s (nextGrid s0)) (getIndex s0 x y) = next_alive s0 x y)"


text \<open>
  The size before the clamp to the minimum, in the words of the specification:
  \<open>min (floor (surfaceWidth / gridWidth), floor (surfaceHeight / gridHeight), 20)\<close>.
\<close>

definition unclamped_size :: "CanvasRenderer \<Rightarrow> GameOfLife \<Rightarrow> int \<Rightarrow> int \<Rightarrow> int" where
  "unclamped_size r game innerWidth innerHeight =
     min (min \<lfloor>real_of_int (availableWidth r innerWidth) / real_of_int (width game)\<rfloor>
              \<lfloor>real_of_int (availableHeight r innerHeight) / real_of_int (height game)\<rfloor>) 20"

text \<open>
  The calls that change the engine, as data, so that a theorem can range over them.
  A call of \<open>loadPattern\<close> that throws leaves the state it has reached, and the caller
  goes on with that state.
\<close>

datatype mutation =
    Step
  | SetCell int int bool
  | ToggleCell int int
  | Clear
  | Randomize "nat \<Rightarrow> real"
  | LoadPattern string int int

fun apply_mutation :: "mutation \<Rightarrow> GameOfLife \<Rightarrow> GameOfLife" where
  "apply_mutation Step s = step s"
| "apply_mutation (SetCell x y alive) s = setCell s x y alive"
| "apply_mutation (ToggleCell x y) s = toggleCell s x y"
| "apply_mutation Clear s = clear s"
| "apply_mutation (Randomize draws) s = randomize s draws"
| "apply_mutation (LoadPattern pattern startX startY) s =
     snd (loadPattern s pattern startX startY)"

text \<open>
  The engine does not hold reference \<open>a\<close>; and a function on engines keeps it that way
  and leaves the array behind \<open>a\<close> alone.
\<close>

definition away :: "ref \<Rightarrow> GameOfLife \<Rightarrow> bool" where
  "away a s \<longleftrightarrow> a \<noteq> currentGrid s \<and> a \<noteq> nextGrid s"

definition preserves :: "ref \<Rightarrow> (GameOfLife \<Rightarrow> GameOfLife) \<Rightarrow> bool" where
  "preserves a f \<longleftrightarrow> (\<forall>s. away a s \<longrightarrow> away a (f s) \<and> heap (f s) a = heap s a)"

subsection \<open>Concrete engines\<close>

text \<open>
  A 5 by 3 grid holding a horizontal blinker in its middle row, after some generations:
  the next buffer holds stale cells.
\<close>

definition blinker_5x3 :: GameOfLife where
  "blinker_5x3 =
     \<lparr>width = 5, height = 3, generation = 7, currentGrid = 0, nextGrid = 1,
      heap = (\<lambda>_. [])
        (0 := [False, False, False, False, False,
               False, True,  True,  True,  False,
               False, False, False, False, False],
         1 := [True,  True,  True,  True,  True,
               True,  False, False, False, True,
               True,  True,  True,  True,  True]),
      heap_next = 2\<rparr>"

text \<open>
  An engine with the same current field and generation counter, at other references,
  whose next buffer holds no live cell.
\<close>

definition blinker_5x3_fresh :: GameOfLife where
  "blinker_5x3_fresh =
     \<lparr>width = 5, height = 3, generation = 7, currentGrid = 4, nextGrid = 3,
      heap = (\<lambda>_. [])
        (4 := [False, False, False, False, False,
               False, True,  True,  True,  False,
               False, False, False, False, False],
         3 := [False, False, False, False, False,
               False, False, False, False, False,
               False, False, False, False, False]),
      heap_next = 5\<rparr>"

text \<open>
  The engine that \<^verbatim>\<open>new GameOfLife(-2, -3)\<close> builds: the product of the dimensions is
  6, so both arrays are allocated, but no coordinate pair is inside the grid. The second
  engine is reached from it by \<open>randomize\<close> (every draw below 0.3), \<open>step\<close> and
  \<open>clear\<close>.
\<close>

definition engine_neg :: GameOfLife where
  "engine_neg =
     \<lparr>width = -2, height = -3, generation = 0, currentGrid = 0, nextGrid = 1,
      heap = (\<lambda>_. [])
        (0 := [False, False, False, False, False, False],
         1 := [False, False, False, False, False, False]),
      heap_next = 2\<rparr>"

definition engine_neg_stale :: GameOfLife where
  "engine_neg_stale = clear (step (randomize engine_neg (\<lambda>_. 0)))"

text \<open>A 13 by 13 grid with every cell alive.\<close>

definition full_13x13 :: GameOfLife where
  "full_13x13 =
     \<lparr>width = 13, height = 13, generation = 4, currentGrid = 0, nextGrid = 1,
      heap = (\<lambda>_. [])(0 := replicate 169 True, 1 := replicate 169 False),
      heap_next = 2\<rparr>"

text \<open>The renderer as its constructor initialises it, before the first layout.\<close>

definition renderer_0 :: CanvasRenderer where
  "renderer_0 = \<lparr>cellSize = 10, showGrid = True, offsetX = 0, offsetY = 0,
                  logicalWidth = None, logicalHeight = None\<rparr>"

section \<open>Properties\<close>

subsection \<open>Row-major indices\<close>

lemma index_bounds:
  fixes x y w h :: int
  assumes "0 \<le> x" "x < w" "0 \<le> y" "y < h"
  shows "0 \<le> y * w + x" "y * w + x < w * h"
proof -
  have "0 \<le> y * w" using assms by simp
  then show "0 \<le> y * w + x" using assms by simp
  have "y * w + x < y * w + w" using assms by simp
  also have "\<dots> = (y + 1) * w" by (simp add: algebra_simps)
  also have "\<dots> \<le> h * w" using assms by (intro mult_right_mono) auto
  finally show "y * w + x < w * h" by (simp add: mult.commute)
qed

lemma index_inj:
  fixes x y w x' y' :: int
  assumes "0 \<le> x" "x < w" "0 \<le> x'" "x' < w" "y * w + x = y' * w + x'"
  shows "x = x' \<and> y = (y'::int)"
proof -
  have m: "(y * w + x) mod w = x" "(y' * w + x') mod w = x'"
    using assms(1-4) by simp_all
  have d: "(y * w + x) div w = y" "(y' * w + x') div w = y'"
    using assms(1-4) by simp_all
  from m assms(5) have "x = x'" by metis
  moreover from d assms(5) have "y = y'" by metis
  ultimately show ?thesis by simp
qed

lemma arr_get_set:
  "0 \<le> i \<Longrightarrow> i < int (length a) \<Longrightarrow>
   arr_get (arr_set a i v) j = (if j = i then v else arr_get a j)"
  by (auto simp: arr_get_def arr_set_def nth_list_update)

lemma length_arr_set: "i < int (length a) \<Longrightarrow> length (arr_set a i v) = length a"
  by (auto simp: arr_set_def)

lemma wf_index:
  assumes "well_formed s" "in_bounds s x y"
  shows "0 \<le> getIndex s x y" "getIndex s x y < int (length (heap s (currentGrid s)))"
    "getIndex s x y < int (length (heap s (nextGrid s)))"
  using assms index_bounds[of x "width s" y "height s"]
  by (auto simp: well_formed_def in_bounds_def getIndex_def)

lemma getIndex_inj:
  "in_bounds s x y \<Longrightarrow> in_bounds s x' y' \<Longrightarrow> getIndex s x y = getIndex s x' y' \<Longrightarrow> x = x' \<and> y = y'"
  using index_inj[of x "width s" x' y y'] by (auto simp: in_bounds_def getIndex_def)

lemma getCell_in: "in_bounds s x y \<Longrightarrow> getCell s x y = arr_get (heap s (currentGrid s)) (getIndex s x y)"
  by (auto simp: getCell_def in_bounds_def)

lemma getCell_out: "\<not> in_bounds s x y \<Longrightarrow> getCell s x y = False"
  by (auto simp: getCell_def in_bounds_def)

subsection \<open>One generation\<close>

lemma write_arr_fields [simp]:
  "width (write_arr s r i v) = width s"
  "height (write_arr s r i v) = height s"
  "generation (write_arr s r i v) = generation s"
  "currentGrid (write_arr s r i v) = currentGrid s"
  "nextGrid (write_arr s r i v) = nextGrid s"
  "heap_next (write_arr s r i v) = heap_next s"
  "heap (write_arr s r i v) r' = (if r' = r then arr_set (heap s r) i v else heap s r')"
  by (simp_all add: write_arr_def)

lemma getCell_cong:
  "width s' = width s \<Longrightarrow> height s' = height s \<Longrightarrow>
   heap s' (currentGrid s') = heap s (currentGrid s) \<Longrightarrow> getCell s' x y = getCell s x y"
  by (simp add: getCell_def getIndex_def)

lemma countNeighbors_cong:
  assumes "width s' = width s" "height s' = height s"
    "heap s' (currentGrid s') = heap s (currentGrid s)"
  shows "countNeighbors s' x y = countNeighbors s x y"
  unfolding countNeighbors_def by (simp add: getCell_cong[OF assms])

lemma next_alive_cong:
  assumes "width s' = width s" "height s' = height s"
    "heap s' (currentGrid s') = heap s (currentGrid s)"
  shows "next_alive s' x y = next_alive s x y"
  unfolding next_alive_def by (simp add: getCell_cong[OF assms] countNeighbors_cong[OF assms])

lemma step_cell_write:
  "step_cell s x y = write_arr s (nextGrid s) (getIndex s x y) (next_alive s x y)"
  by (simp add: step_cell_def next_alive_def Let_def)

lemma getIndex_cong: "width s' = width s \<Longrightarrow> getIndex s' x y = getIndex s x y"
  by (simp add: getIndex_def)

lemma filled_step_cell:
  assumes wf: "well_formed s0" and f: "filled s0 D s" and b: "in_bounds s0 x y"
  shows "filled s0 (insert (x, y) D) (step_cell s x y)"
proof -
  from f have se: "same_engine s0 s"
    and fr: "\<And>r. r \<noteq> nextGrid s0 \<Longrightarrow> heap s r = heap s0 r"
    and len: "length (heap s (nextGrid s0)) = length (heap s0 (nextGrid s0))"
    and dn: "\<And>a b. (a, b) \<in> D \<Longrightarrow> in_bounds s0 a b \<Longrightarrow>
        arr_get (heap s (nextGrid s0)) (getIndex s0 a b) = next_alive s0 a b"
    by (auto simp: filled_def)
  from wf have ne: "currentGrid s0 \<noteq> nextGrid s0" by (simp add: well_formed_def)
  from se have w: "width s = width s0" and h: "height s = height s0"
    and c: "currentGrid s = currentGrid s0" and n: "nextGrid s = nextGrid s0"
    by (simp_all add: same_engine_def)
  have cur: "heap s (currentGrid s) = heap s0 (currentGrid s0)"
    using fr[OF ne] c by simp
  have na: "next_alive s x y = next_alive s0 x y"
    by (rule next_alive_cong[OF w h cur])
  have gi: "getIndex s x y = getIndex s0 x y" by (rule getIndex_cong[OF w])
  have i0: "0 \<le> getIndex s0 x y" and i1: "getIndex s0 x y < int (length (heap s (nextGrid s0)))"
    using wf_index[OF wf b] len by simp_all
  let ?s' = "step_cell s x y"
  have eq: "?s' = write_arr s (nextGrid s0) (getIndex s0 x y) (next_alive s0 x y)"
    by (simp add: step_cell_write n na gi)
  have "same_engine s0 ?s'" using se by (simp add: eq same_engine_def)
  moreover have "\<forall>r. r \<noteq> nextGrid s0 \<longrightarrow> heap ?s' r = heap s0 r"
    using fr by (simp add: eq)
  moreover have "length (heap ?s' (nextGrid s0)) = length (heap s0 (nextGrid s0))"
    using len i1 by (simp add: eq length_arr_set)
  moreover have "arr_get (heap ?s' (nextGrid s0)) (getIndex s0 a b) = next_alive s0 a b"
    if m: "(a, b) \<in> insert (x, y) D" and ib: "in_bounds s0 a b" for a b
  proof (cases "getIndex s0 a b = getIndex s0 x y")
    case True
    with getIndex_inj[OF ib b] have "a = x" "b = y" by simp_all
    then show ?thesis by (simp add: eq arr_get_set[OF i0 i1])
  next
    case False
    then have "(a, b) \<noteq> (x, y)" by auto
    with m have "(a, b) \<in> D" by blast
    from dn[OF this ib] False show ?thesis by (simp add: eq arr_get_set[OF i0 i1])
  qed
  ultimately show ?thesis unfolding filled_def by blast
qed

lemma filled_cells:
  assumes wf: "well_formed s0" and f: "filled s0 D s"
    and xs: "\<forall>x \<in> set xs. 0 \<le> x \<and> x < width s0" and y: "0 \<le> y" "y < height s0"
  shows "filled s0 (D \<union> {(x, y) | x. x \<in> set xs}) (fold (\<lambda>x s. step_cell s x y) xs s)"
  using f xs
proof (induction xs arbitrary: D s)
  case Nil
  then show ?case by simp
next
  case (Cons x xs)
  have b: "in_bounds s0 x y" using Cons.prems(2) y by (simp add: in_bounds_def)
  have "filled s0 (insert (x, y) D \<union> {(x, y) | x. x \<in> set xs})
          (fold (\<lambda>x s. step_cell s x y) xs (step_cell s x y))"
    using Cons.prems(2) by (intro Cons.IH filled_step_cell[OF wf Cons.prems(1) b]) simp
  moreover have "insert (x, y) D \<union> {(x, y) | x. x \<in> set xs}
      = D \<union> {(xa, y) | xa. xa \<in> set (x # xs)}" by auto
  ultimately show ?case by simp
qed

lemma filled_row:
  assumes wf: "well_formed s0" and f: "filled s0 D s" and y: "0 \<le> y" "y < height s0"
  shows "filled s0 (D \<union> {(x, y) | x. 0 \<le> x \<and> x < width s0}) (step_row s y)"
proof -
  from f have w: "width s = width s0" by (simp add: filled_def same_engine_def)
  have "filled s0 (D \<union> {(x, y) | x. x \<in> set [0..width s0 - 1]})
          (fold (\<lambda>x s. step_cell s x y) [0..width s0 - 1] s)"
    by (rule filled_cells[OF wf f _ y]) simp
  moreover have "{(x, y) | x. x \<in> set [0..width s0 - 1]} = {(x, y) | x. 0 \<le> x \<and> x < width s0}"
    by auto
  ultimately show ?thesis by (simp add: step_row_def w)
qed

lemma filled_rows:
  assumes wf: "well_formed s0" and f: "filled s0 D s"
    and ys: "\<forall>y \<in> set ys. 0 \<le> y \<and> y < height s0"
  shows "filled s0 (D \<union> {(x, y) | x y. 0 \<le> x \<and> x < width s0 \<and> y \<in> set ys})
           (fold (\<lambda>y s. step_row s y) ys s)"
  using f ys
proof (induction ys arbitrary: D s)
  case Nil
  then show ?case by simp
next
  case (Cons y ys)
  let ?D = "D \<union> {(x, y) | x. 0 \<le> x \<and> x < width s0}"
  have "filled s0 ?D (step_row s y)"
    using Cons.prems(2) by (intro filled_row[OF wf Cons.prems(1)]) simp_all
  then have "filled s0 (?D \<union> {(x, y) | x y. 0 \<le> x \<and> x < width s0 \<and> y \<in> set ys})
          (fold (\<lambda>y s. step_row s y) ys (step_row s y))"
    using Cons.prems(2) by (intro Cons.IH) simp_all
  moreover have "?D \<union> {(x, y) | x y. 0 \<le> x \<and> x < width s0 \<and> y \<in> set ys}
      = D \<union> {(x, ya) | x ya. 0 \<le> x \<and> x < width s0 \<and> ya \<in> set (y # ys)}" by auto
  ultimately show ?case by simp
qed

lemma filled_refl: "filled s {} s"
  by (simp add: filled_def same_engine_def)

lemma filled_step_fill:
  assumes wf: "well_formed s"
  shows "filled s {(x, y). in_bounds s x y} (step_fill s)"
proof -
  have "filled s ({} \<union> {(x, y) | x y. 0 \<le> x \<and> x < width s \<and> y \<in> set [0..height s - 1]})
          (fold (\<lambda>y s. step_row s y) [0..height s - 1] s)"
    by (rule filled_rows[OF wf filled_refl]) simp
  moreover have "{} \<union> {(x, y) | x y. 0 \<le> x \<and> x < width s \<and> y \<in> set [0..height s - 1]}
      = {(x, y). in_bounds s x y}" by (auto simp: in_bounds_def)
  ultimately show ?thesis by (simp add: step_fill_def)
qed

lemma step_fields:
  assumes "well_formed s"
  shows "width (step s) = width s" "height (step s) = height s"
    "generation (step s) = generation s + 1"
    "currentGrid (step s) = nextGrid s" "nextGrid (step s) = currentGrid s"
    "heap_next (step s) = heap_next s"
    "heap (step s) (currentGrid s) = heap s (currentGrid s)"
    "length (heap (step s) (nextGrid s)) = length (heap s (nextGrid s))"
  using filled_step_fill[OF assms] assms
  by (simp_all add: step_def Let_def filled_def same_engine_def well_formed_def)

lemma in_bounds_step: "well_formed s \<Longrightarrow> in_bounds (step s) x y = in_bounds s x y"
  by (simp add: in_bounds_def step_fields)

lemma well_formed_step: "well_formed s \<Longrightarrow> well_formed (step s)"
  using step_fields[of s] by (auto simp: well_formed_def)

lemma getCell_step:
  assumes wf: "well_formed s" and b: "in_bounds s x y"
  shows "getCell (step s) x y = next_alive s x y"
proof -
  have "arr_get (heap (step_fill s) (nextGrid s)) (getIndex s x y) = next_alive s x y"
    using filled_step_fill[OF wf] b by (simp add: filled_def)
  moreover have "heap (step s) (currentGrid (step s)) = heap (step_fill s) (nextGrid s)"
    using filled_step_fill[OF wf] by (simp add: step_def Let_def filled_def same_engine_def)
  moreover have "in_bounds (step s) x y" using b wf by (simp add: in_bounds_step)
  moreover have "getIndex (step s) x y = getIndex s x y"
    by (simp add: getIndex_def step_fields[OF wf])
  ultimately show ?thesis by (simp add: getCell_in)
qed

subsection \<open>Counting neighbours\<close>

lemma fold_add_sum:
  "fold (\<lambda>d (c::nat). c + f d) ds c0 = c0 + sum_list (map f ds)"
  by (induction ds arbitrary: c0) simp_all


lemma countNeighbors_sum:
  "countNeighbors s x y =
     (\<Sum>dy\<leftarrow>[-1, 0, 1]. \<Sum>dx\<leftarrow>[-1, 0, 1].
        if \<not> (dx = 0 \<and> dy = 0) \<and> getCell s (x + dx) (y + dy) then 1 else 0)"
proof -
  have body: "(\<lambda>dx count. if dx = 0 \<and> dy = 0 then count
                 else if getCell s (x + dx) (y + dy) then count + 1 else count)
     = (\<lambda>dx (count::nat). count +
           (if \<not> (dx = 0 \<and> dy = 0) \<and> getCell s (x + dx) (y + dy) then 1 else 0))" for dy :: int
    by (intro ext) simp
  show ?thesis
    unfolding countNeighbors_def body fold_add_sum by simp
qed




lemma well_formed_blinker_5x3: "well_formed blinker_5x3"
  by (simp add: well_formed_def blinker_5x3_def)





text \<open>The model runs: one generation turns the horizontal blinker into the vertical one.\<close>

lemma step_blinker_5x3:
  "heap (step blinker_5x3) (currentGrid (step blinker_5x3)) =
     [False, False, True, False, False,
      False, False, True, False, False,
      False, False, True, False, False]"
  by code_simp

subsection \<open>Out-of-bounds coordinates\<close>

text \<open>
  Claim C3. For coordinates outside \<open>[0, width) \<times> [0, height)\<close>, \<open>getCell\<close> returns
  false, and \<open>setCell\<close> (with either value) and \<open>toggleCell\<close> return the engine as it
  was: every cell, the generation counter and everything else are unchanged.
\<close>

theorem out_of_bounds_absorbed:
  assumes "x < 0 \<or> width s \<le> x \<or> y < 0 \<or> height s \<le> y"
  shows "getCell s x y = False \<and> setCell s x y alive = s \<and> toggleCell s x y = s"
  using assms by (auto simp: getCell_def setCell_def toggleCell_def)

theorem out_of_bounds_absorbed_witness:
  "getCell blinker_5x3 (-1) 0 = False \<and> setCell blinker_5x3 (-1) 0 True = blinker_5x3 \<and>
   toggleCell blinker_5x3 (-1) 0 = blinker_5x3"
  using out_of_bounds_absorbed[of "-1" blinker_5x3 0 True] by simp

subsection \<open>Clearing\<close>

lemma population_count:
  "foldl (\<lambda>count cell. count + (if cell then 1 else 0)) n a = n + length (filter id a)"
  by (induction a arbitrary: n) simp_all

lemma getPopulation_count: "getPopulation s = length (filter id (heap s (currentGrid s)))"
  by (simp add: getPopulation_def population_count)

lemma arr_fill_False: "arr_fill a False = replicate (length a) False"
  by (simp add: arr_fill_def map_replicate_const)

lemma arr_get_replicate_False: "arr_get (replicate n False) i = False"
  by (auto simp: arr_get_def)

lemma clear_fields [simp]:
  "width (clear s) = width s" "height (clear s) = height s" "generation (clear s) = 0"
  "currentGrid (clear s) = currentGrid s" "nextGrid (clear s) = nextGrid s"
  "heap_next (clear s) = heap_next s"
  "heap (clear s) r = (if r = currentGrid s then replicate (length (heap s r)) False else heap s r)"
  by (simp_all add: clear_def arr_fill_False)

lemma getCell_clear: "getCell (clear s) x y = False"
  by (simp add: getCell_def arr_get_replicate_False)

text \<open>
  Claim C6. Whatever the engine was, after \<open>clear\<close> the population is 0, the generation
  counter is 0, and every cell of the current field is dead.
\<close>

theorem clear_resets:
  "getPopulation (clear s) = 0 \<and> getGeneration (clear s) = 0 \<and>
   heap (clear s) (currentGrid (clear s)) = replicate (length (heap s (currentGrid s))) False \<and>
   (\<forall>x y. getCell (clear s) x y = False)"
  by (simp add: getPopulation_count getGeneration_def getCell_clear)

theorem clear_resets_witness:
  "getPopulation blinker_5x3 = 3 \<and> getPopulation (clear blinker_5x3) = 0 \<and>
   getGeneration blinker_5x3 = 7 \<and> getGeneration (clear blinker_5x3) = 0"
  using clear_resets[of blinker_5x3]
  by (simp add: getPopulation_count getGeneration_def blinker_5x3_def)

subsection \<open>Loading a pattern that does not exist\<close>

lemma patterns_unknown:
  "pattern \<notin> {''glider'', ''blinker'', ''toad'', ''beacon''} \<Longrightarrow> patterns pattern = None"
  by (simp add: patterns_def)

lemma Object_prototype_no_rows: "Object_prototype pattern \<noteq> Some (Rows patternData)"
  by (simp add: Object_prototype_def)

text \<open>The state that \<open>loadPattern\<close> leaves, whether it returns or throws.\<close>

lemma loadPattern_state:
  "snd (loadPattern s pattern startX startY) =
     (case patterns pattern of
        None \<Rightarrow> clear s
      | Some patternData \<Rightarrow>
          fold (\<lambda>y s. stamp_row patternData startX startY s y) [0..<length patternData] (clear s))"
proof (cases "patterns pattern")
  case None
  show ?thesis
  proof (cases "Object_prototype pattern")
    case None
    with \<open>patterns pattern = None\<close> show ?thesis
      by (simp add: loadPattern_def patterns_get_def)
  next
    case (Some v)
    with Object_prototype_no_rows[of pattern] \<open>patterns pattern = None\<close> show ?thesis
      by (cases v) (auto simp: loadPattern_def patterns_get_def Let_def)
  qed
next
  case (Some patternData)
  then show ?thesis by (simp add: loadPattern_def patterns_get_def)
qed

text \<open>
  Claim C1, as amended. \<open>loadPattern\<close> calls \<open>clear\<close> before it looks the name up.
  For a name that is none of glider, blinker, toad and beacon it stamps no cell and
  leaves the engine exactly as \<open>clear\<close> does: all cells dead, generation counter 0.
  When the name is no property of the table at all, own or inherited, the call returns
  normally.
\<close>

theorem loadPattern_unknown:
  assumes "pattern \<notin> {''glider'', ''blinker'', ''toad'', ''beacon''}"
  shows "snd (loadPattern s pattern startX startY) = clear s \<and>
         (patterns_get pattern = Undefined \<longrightarrow>
            fst (loadPattern s pattern startX startY) = None)"
  using patterns_unknown[OF assms] by (simp add: loadPattern_state) (simp add: loadPattern_def)

lemma patterns_get_spaceship: "patterns_get ''spaceship'' = Undefined"
  by (simp add: patterns_get_def patterns_def Object_prototype_def)

theorem loadPattern_unknown_witness:
  "patterns_get ''spaceship'' = Undefined \<and>
   loadPattern blinker_5x3 ''spaceship'' 1 1 = (None, clear blinker_5x3)"
proof -
  have "''spaceship'' \<notin> {''glider'', ''blinker'', ''toad'', ''beacon''}" by simp
  from loadPattern_unknown[OF this, of blinker_5x3 1 1] patterns_get_spaceship
  show ?thesis by (simp add: prod_eq_iff)
qed

text \<open>
  The claim as stated, that the call leaves every cell and the generation counter as
  they were, fails: a live cell of the blinker is dead after loading an unknown name,
  and the counter has gone from 7 to 0.
\<close>

theorem loadPattern_unknown_counterexample:
  "''spaceship'' \<notin> {''glider'', ''blinker'', ''toad'', ''beacon''} \<and>
   getCell blinker_5x3 2 1 = True \<and>
   getCell (snd (loadPattern blinker_5x3 ''spaceship'' 1 1)) 2 1 = False \<and>
   generation blinker_5x3 = 7 \<and>
   generation (snd (loadPattern blinker_5x3 ''spaceship'' 1 1)) = 0"
  by (simp add: loadPattern_state patterns_def getCell_clear)
     (simp add: blinker_5x3_def getCell_def getIndex_def arr_get_def)

text \<open>
  A name that the table inherits from \<^verbatim>\<open>Object.prototype\<close> as a function with
  parameters passes the guard: the call clears the grid and then throws.
\<close>

lemma loadPattern_constructor:
  "loadPattern s ''constructor'' startX startY = (Some TypeError, clear s)"
  by (simp add: loadPattern_def patterns_get_def patterns_def Object_prototype_def)

lemma loadPattern_toString:
  "loadPattern s ''toString'' startX startY = (None, clear s)"
  by (simp add: loadPattern_def patterns_get_def patterns_def Object_prototype_def)

subsection \<open>The next buffer is scratch space\<close>

lemma grid_eqI:
  assumes s: "well_formed s" and t: "well_formed t"
    and w: "width s = width t" and h: "height s = height t"
    and c: "\<And>x y. in_bounds s x y \<Longrightarrow> getCell s x y = getCell t x y"
  shows "heap s (currentGrid s) = heap t (currentGrid t)"
proof (rule nth_equalityI)
  show len: "length (heap s (currentGrid s)) = length (heap t (currentGrid t))"
    using s t w h by (simp add: well_formed_def)
  fix i assume i: "i < length (heap s (currentGrid s))"
  let ?w = "width s" and ?h = "height s"
  from i s have lt: "int i < ?w * ?h" and w0: "0 \<le> ?w" and h0: "0 \<le> ?h"
    by (simp_all add: well_formed_def)
  have wpos: "0 < ?w"
  proof (rule ccontr)
    assume "\<not> 0 < ?w"
    with w0 have "?w = 0" by simp
    with lt show False by simp
  qed
  define x where "x = int i mod ?w"
  define y where "y = int i div ?w"
  have xy: "y * ?w + x = int i" by (simp add: x_def y_def)
  have x: "0 \<le> x" "x < ?w" using wpos by (simp_all add: x_def)
  have y0: "0 \<le> y" using wpos by (simp add: y_def pos_imp_zdiv_nonneg_iff)
  have y1: "y < ?h"
  proof (rule ccontr)
    assume "\<not> y < ?h"
    then have "?h * ?w \<le> y * ?w" using wpos by (intro mult_right_mono) simp_all
    with xy x lt show False by (simp add: mult.commute)
  qed
  have b: "in_bounds s x y" using x y0 y1 by (simp add: in_bounds_def)
  then have b': "in_bounds t x y" using w h by (simp add: in_bounds_def)
  have "getCell s x y = heap s (currentGrid s) ! i"
    using b i xy by (simp add: getCell_in getIndex_def arr_get_def)
  moreover have "getCell t x y = heap t (currentGrid t) ! i"
    using b' i xy len w by (simp add: getCell_in getIndex_def arr_get_def)
  ultimately show "heap s (currentGrid s) ! i = heap t (currentGrid t) ! i"
    using c[OF b] by simp
qed

text \<open>
  Claim C10, as amended. Two well-formed engines (in particular: of non-negative width
  and height) with the same width, height and generation counter and equal current
  fields, whatever their next buffers hold, have equal current fields, equal
  populations and equal generation counters after one \<open>step\<close>.
\<close>

theorem step_ignores_next_buffer:
  assumes "well_formed s" and "well_formed t"
    and "width s = width t" and "height s = height t"
    and "generation s = generation t"
    and "heap s (currentGrid s) = heap t (currentGrid t)"
  shows "heap (step s) (currentGrid (step s)) = heap (step t) (currentGrid (step t)) \<and>
         getPopulation (step s) = getPopulation (step t) \<and>
         getGeneration (step s) = getGeneration (step t)"
proof -
  have na: "next_alive s x y = next_alive t x y" for x y
    using assms by (intro next_alive_cong) simp_all
  have "heap (step s) (currentGrid (step s)) = heap (step t) (currentGrid (step t))"
  proof (rule grid_eqI)
    show "well_formed (step s)" "well_formed (step t)"
      using assms by (simp_all add: well_formed_step)
    show "width (step s) = width (step t)" "height (step s) = height (step t)"
      using assms by (simp_all add: step_fields)
    fix x y assume "in_bounds (step s) x y"
    then have "in_bounds s x y" "in_bounds t x y"
      using assms by (simp_all add: in_bounds_def step_fields)
    then show "getCell (step s) x y = getCell (step t) x y"
      using assms(1,2) na by (simp add: getCell_step)
  qed
  then show ?thesis
    using assms by (simp add: getPopulation_count getGeneration_def step_fields)
qed

lemma well_formed_blinker_5x3_fresh: "well_formed blinker_5x3_fresh"
  by (simp add: well_formed_def blinker_5x3_fresh_def)

theorem step_ignores_next_buffer_witness:
  "heap blinker_5x3 (nextGrid blinker_5x3) \<noteq> heap blinker_5x3_fresh (nextGrid blinker_5x3_fresh) \<and>
   heap (step blinker_5x3) (currentGrid (step blinker_5x3))
     = heap (step blinker_5x3_fresh) (currentGrid (step blinker_5x3_fresh)) \<and>
   getPopulation (step blinker_5x3) = getPopulation (step blinker_5x3_fresh) \<and>
   getGeneration (step blinker_5x3) = getGeneration (step blinker_5x3_fresh)"
proof -
  have "width blinker_5x3 = width blinker_5x3_fresh"
    and "height blinker_5x3 = height blinker_5x3_fresh"
    and "generation blinker_5x3 = generation blinker_5x3_fresh"
    and "heap blinker_5x3 (currentGrid blinker_5x3)
         = heap blinker_5x3_fresh (currentGrid blinker_5x3_fresh)"
    by (simp_all add: blinker_5x3_def blinker_5x3_fresh_def)
  note step_ignores_next_buffer[OF well_formed_blinker_5x3 well_formed_blinker_5x3_fresh this]
  moreover have "heap blinker_5x3 (nextGrid blinker_5x3)
      \<noteq> heap blinker_5x3_fresh (nextGrid blinker_5x3_fresh)"
    by (simp add: blinker_5x3_def blinker_5x3_fresh_def)
  ultimately show ?thesis by blast
qed

text \<open>
  The claim as stated, for any two engines, fails where both dimensions are negative:
  the constructor accepts them, the loops of \<open>step\<close> do not run, and the swap makes the
  stale next buffer the current field. The two engines below agree on width, height,
  generation counter and current field, and have populations 6 and 0 after one step.
\<close>

lemma new_GameOfLife_neg: "new_GameOfLife (-2) (-3) (\<lambda>_. []) 0 = Inr engine_neg"
  by (simp add: new_GameOfLife_def engine_neg_def eval_nat_numeral)

lemma engine_neg_stale_eq:
  "engine_neg_stale =
     \<lparr>width = -2, height = -3, generation = 0, currentGrid = 1, nextGrid = 0,
      heap = (\<lambda>_. [])
        (0 := [True, True, True, True, True, True],
         1 := [False, False, False, False, False, False]),
      heap_next = 2\<rparr>"
  by (simp add: engine_neg_stale_def engine_neg_def clear_def step_def step_fill_def
      randomize_def write_arr_def arr_set_def arr_fill_def Let_def fun_upd_twist)

theorem step_ignores_next_buffer_counterexample:
  "width engine_neg_stale = width engine_neg \<and>
   height engine_neg_stale = height engine_neg \<and>
   generation engine_neg_stale = generation engine_neg \<and>
   heap engine_neg_stale (currentGrid engine_neg_stale) = heap engine_neg (currentGrid engine_neg) \<and>
   getPopulation (step engine_neg_stale) = 6 \<and>
   getPopulation (step engine_neg) = 0"
  unfolding engine_neg_stale_eq
  by (simp add: engine_neg_def step_def step_fill_def Let_def getPopulation_def)

subsection \<open>The blinker\<close>

lemma next_alive_horizontal:
  assumes g: "\<And>a b. getCell s a b = (b = y0 \<and> x0 \<le> a \<and> a \<le> x0 + 2)"
  shows "next_alive s x y = (x = x0 + 1 \<and> y0 - 1 \<le> y \<and> y \<le> y0 + 1)"
proof -
  define dx where "dx = x - x0"
  define dy where "dy = y - y0"
  have x: "x = x0 + dx" and y: "y = y0 + dy" by (simp_all add: dx_def dy_def)
  have cx: "dx < -1 \<or> dx = -1 \<or> dx = 0 \<or> dx = 1 \<or> dx = 2 \<or> dx = 3 \<or> 3 < dx" by arith
  have cy: "dy < -1 \<or> dy = -1 \<or> dy = 0 \<or> dy = 1 \<or> 1 < dy" by arith
  show ?thesis
    unfolding next_alive_def countNeighbors_sum g x y
    using cx cy by (elim disjE) simp_all
qed

lemma next_alive_vertical:
  assumes g: "\<And>a b. getCell s a b = (a = x0 + 1 \<and> y0 - 1 \<le> b \<and> b \<le> y0 + 1)"
  shows "next_alive s x y = (y = y0 \<and> x0 \<le> x \<and> x \<le> x0 + 2)"
proof -
  define dx where "dx = x - x0"
  define dy where "dy = y - y0"
  have x: "x = x0 + dx" and y: "y = y0 + dy" by (simp_all add: dx_def dy_def)
  have cx: "dx < -1 \<or> dx = -1 \<or> dx = 0 \<or> dx = 1 \<or> dx = 2 \<or> dx = 3 \<or> 3 < dx" by arith
  have cy: "dy < -2 \<or> dy = -2 \<or> dy = -1 \<or> dy = 0 \<or> dy = 1 \<or> dy = 2 \<or> 2 < dy" by arith
  show ?thesis
    unfolding next_alive_def countNeighbors_sum g x y
    using cx cy by (elim disjE) simp_all
qed


text \<open>
  Claim C5. If the only live cells are the three cells \<open>(x0, y0)\<close>, \<open>(x0 + 1, y0)\<close>,
  \<open>(x0 + 2, y0)\<close> of a horizontal blinker whose Moore neighbourhoods lie inside the
  grid, two steps give back the current field cell for cell, and the generation counter
  has grown by 2.
\<close>

theorem blinker_period_2:
  assumes wf: "well_formed s"
    and interior: "1 \<le> x0" "x0 + 3 < width s" "1 \<le> y0" "y0 + 1 < height s"
    and blinker: "\<forall>x y. getCell s x y = (y = y0 \<and> x0 \<le> x \<and> x \<le> x0 + 2)"
  shows "heap (step (step s)) (currentGrid (step (step s))) = heap s (currentGrid s) \<and>
         getGeneration (step (step s)) = getGeneration s + 2"
proof -
  let ?t = "step s"
  have wf1: "well_formed ?t" by (rule well_formed_step[OF wf])
  have wf2: "well_formed (step ?t)" by (rule well_formed_step[OF wf1])
  have g0: "getCell s a b = (b = y0 \<and> x0 \<le> a \<and> a \<le> x0 + 2)" for a b
    using blinker by simp
  have g1: "getCell ?t a b = (a = x0 + 1 \<and> y0 - 1 \<le> b \<and> b \<le> y0 + 1)" for a b
  proof (cases "in_bounds s a b")
    case True
    then show ?thesis
      by (simp add: getCell_step[OF wf] next_alive_horizontal[of s y0 x0, OF g0])
  next
    case False
    then have "\<not> in_bounds ?t a b" by (simp add: in_bounds_step[OF wf])
    moreover from False interior
    have "\<not> (a = x0 + 1 \<and> y0 - 1 \<le> b \<and> b \<le> y0 + 1)"
      by (auto simp: in_bounds_def)
    ultimately show ?thesis by (simp add: getCell_out)
  qed
  have "heap (step ?t) (currentGrid (step ?t)) = heap s (currentGrid s)"
  proof (rule grid_eqI[OF wf2 wf])
    show "width (step ?t) = width s" "height (step ?t) = height s"
      by (simp_all add: step_fields[OF wf1] step_fields[OF wf])
    fix x y assume "in_bounds (step ?t) x y"
    then have "in_bounds ?t x y" by (simp add: in_bounds_step[OF wf1])
    then show "getCell (step ?t) x y = getCell s x y"
      by (simp add: getCell_step[OF wf1] next_alive_vertical[of ?t x0 y0, OF g1] g0)
  qed
  then show ?thesis
    by (simp add: getGeneration_def step_fields[OF wf1] step_fields[OF wf])
qed

lemma getCell_blinker_5x3: "getCell blinker_5x3 x y = (y = 1 \<and> 1 \<le> x \<and> x \<le> 1 + 2)"
proof -
  have cx: "x < 0 \<or> x = 0 \<or> x = 1 \<or> x = 2 \<or> x = 3 \<or> x = 4 \<or> 4 < x" by arith
  have cy: "y < 0 \<or> y = 0 \<or> y = 1 \<or> y = 2 \<or> 2 < y" by arith
  show ?thesis
    using cx cy
    by (elim disjE) (simp_all add: getCell_def getIndex_def arr_get_def blinker_5x3_def)
qed

theorem blinker_period_2_witness:
  "heap (step (step blinker_5x3)) (currentGrid (step (step blinker_5x3)))
     = heap blinker_5x3 (currentGrid blinker_5x3) \<and>
   getGeneration (step (step blinker_5x3)) = 9"
proof -
  have "1 \<le> (1::int)" "(1::int) + 3 < width blinker_5x3" "(1::int) + 1 < height blinker_5x3"
    by (simp_all add: blinker_5x3_def)
  moreover have "\<forall>x y. getCell blinker_5x3 x y = (y = 1 \<and> 1 \<le> x \<and> x \<le> 1 + 2)"
    using getCell_blinker_5x3 by blast
  ultimately have "heap (step (step blinker_5x3)) (currentGrid (step (step blinker_5x3)))
     = heap blinker_5x3 (currentGrid blinker_5x3) \<and>
     getGeneration (step (step blinker_5x3)) = getGeneration blinker_5x3 + 2"
    by (intro blinker_period_2[OF well_formed_blinker_5x3, of 1 1]) simp_all
  then show ?thesis by (simp add: getGeneration_def blinker_5x3_def)
qed

subsection \<open>Loading the glider\<close>

lemma well_formed_clear: "well_formed s \<Longrightarrow> well_formed (clear s)"
  by (simp add: well_formed_def)

lemma getPopulation_clear: "getPopulation (clear s) = 0"
  by (simp add: getPopulation_count)

lemma setCell_in:
  "in_bounds s x y \<Longrightarrow> setCell s x y v = write_arr s (currentGrid s) (getIndex s x y) v"
  by (simp add: setCell_def in_bounds_def)

lemma setCell_fields [simp]:
  "width (setCell s x y v) = width s" "height (setCell s x y v) = height s"
  "generation (setCell s x y v) = generation s"
  "currentGrid (setCell s x y v) = currentGrid s" "nextGrid (setCell s x y v) = nextGrid s"
  "heap_next (setCell s x y v) = heap_next s"
  by (simp_all add: setCell_def)

lemma in_bounds_setCell [simp]: "in_bounds (setCell s a b v) x y = in_bounds s x y"
  by (simp add: in_bounds_def)

lemma in_bounds_clear [simp]: "in_bounds (clear s) x y = in_bounds s x y"
  by (simp add: in_bounds_def)

lemma well_formed_setCell:
  assumes "well_formed s"
  shows "well_formed (setCell s x y v)"
proof (cases "in_bounds s x y")
  case True
  with wf_index[OF assms True] assms show ?thesis
    by (simp add: setCell_in well_formed_def length_arr_set)
next
  case False
  then show ?thesis using assms by (auto simp: setCell_def in_bounds_def)
qed

lemma getCell_setCell:
  assumes wf: "well_formed s" and b: "in_bounds s a b"
  shows "getCell (setCell s a b v) x y = (if x = a \<and> y = b then v else getCell s x y)"
proof (cases "in_bounds s x y")
  case True
  have "getIndex s x y = getIndex s a b \<longleftrightarrow> x = a \<and> y = b"
    using getIndex_inj[OF True b] by auto
  moreover have "getCell (setCell s a b v) x y
      = arr_get (arr_set (heap s (currentGrid s)) (getIndex s a b) v) (getIndex s x y)"
    using True by (simp add: getCell_def in_bounds_def setCell_in[OF b] getIndex_def)
  ultimately show ?thesis
    using True wf_index[OF wf b] by (simp add: getCell_in arr_get_set)
next
  case False
  with b have "\<not> (x = a \<and> y = b)" by auto
  with False show ?thesis by (auto simp: getCell_out)
qed

lemma count_list_update_True:
  "i < length xs \<Longrightarrow> \<not> xs ! i \<Longrightarrow>
   length (filter id (xs[i := True])) = Suc (length (filter id xs))"
proof (induction xs arbitrary: i)
  case Nil
  then show ?case by simp
next
  case (Cons x xs)
  then show ?case by (cases i) simp_all
qed

lemma getPopulation_setCell:
  assumes wf: "well_formed s" and b: "in_bounds s a b" and d: "\<not> getCell s a b"
  shows "getPopulation (setCell s a b True) = Suc (getPopulation s)"
proof -
  from wf_index[OF wf b] have i: "nat (getIndex s a b) < length (heap s (currentGrid s))"
    by simp
  from d b wf_index[OF wf b] have "\<not> heap s (currentGrid s) ! nat (getIndex s a b)"
    by (simp add: getCell_in arr_get_def)
  from count_list_update_True[OF i this] wf_index[OF wf b] show ?thesis
    by (simp add: getPopulation_count setCell_in[OF b] arr_set_def)
qed

lemma glider_stamps:
  "loadPattern s ''glider'' 10 10 =
     (None, setCell (setCell (setCell (setCell (setCell (clear s) 11 10 True) 12 11 True)
       10 12 True) 11 12 True) 12 12 True)"
  by (simp add: loadPattern_def patterns_get_def patterns_def stamp_row_def)

text \<open>
  Claim C4. On a well-formed engine of width and height at least 13, whatever cells
  were alive before, after \<open>loadPattern\<close> of the glider at \<open>(10, 10)\<close> the live cells are
  exactly \<open>(11, 10)\<close>, \<open>(12, 11)\<close>, \<open>(10, 12)\<close>, \<open>(11, 12)\<close> and \<open>(12, 12)\<close>, and
  the population is 5. The call returns normally.
\<close>

theorem loadPattern_glider:
  assumes wf: "well_formed s" and w: "13 \<le> width s" and h: "13 \<le> height s"
  shows "(\<forall>x y. getCell (snd (loadPattern s ''glider'' 10 10)) x y
            = ((x, y) \<in> {(11, 10), (12, 11), (10, 12), (11, 12), (12, 12)})) \<and>
         getPopulation (snd (loadPattern s ''glider'' 10 10)) = 5 \<and>
         fst (loadPattern s ''glider'' 10 10) = None"
proof -
  let ?s0 = "clear s"
  let ?s1 = "setCell ?s0 11 10 True"
  let ?s2 = "setCell ?s1 12 11 True"
  let ?s3 = "setCell ?s2 10 12 True"
  let ?s4 = "setCell ?s3 11 12 True"
  have wf0: "well_formed ?s0" by (rule well_formed_clear[OF wf])
  have wf1: "well_formed ?s1" by (rule well_formed_setCell[OF wf0])
  have wf2: "well_formed ?s2" by (rule well_formed_setCell[OF wf1])
  have wf3: "well_formed ?s3" by (rule well_formed_setCell[OF wf2])
  have wf4: "well_formed ?s4" by (rule well_formed_setCell[OF wf3])
  have b: "in_bounds s 11 10" "in_bounds s 12 11" "in_bounds s 10 12"
    "in_bounds s 11 12" "in_bounds s 12 12"
    using w h by (simp_all add: in_bounds_def)
  have g1: "getCell ?s1 x y = ((x, y) = (11, 10))" for x y
    using b by (simp add: getCell_setCell[OF wf0] getCell_clear)
  have g2: "getCell ?s2 x y = ((x, y) \<in> {(11, 10), (12, 11)})" for x y
    using b by (auto simp: getCell_setCell[OF wf1] g1)
  have g3: "getCell ?s3 x y = ((x, y) \<in> {(11, 10), (12, 11), (10, 12)})" for x y
    using b by (auto simp: getCell_setCell[OF wf2] g2)
  have g4: "getCell ?s4 x y = ((x, y) \<in> {(11, 10), (12, 11), (10, 12), (11, 12)})" for x y
    using b by (auto simp: getCell_setCell[OF wf3] g3)
  have g5: "getCell (setCell ?s4 12 12 True) x y
      = ((x, y) \<in> {(11, 10), (12, 11), (10, 12), (11, 12), (12, 12)})" for x y
    using b by (auto simp: getCell_setCell[OF wf4] g4)
  have p1: "getPopulation ?s1 = 1"
    using b by (simp add: getPopulation_setCell[OF wf0] getCell_clear getPopulation_clear)
  have p2: "getPopulation ?s2 = 2"
    using b by (simp add: getPopulation_setCell[OF wf1] g1 p1)
  have p3: "getPopulation ?s3 = 3"
    using b by (simp add: getPopulation_setCell[OF wf2] g2 p2)
  have p4: "getPopulation ?s4 = 4"
    using b by (simp add: getPopulation_setCell[OF wf3] g3 p3)
  have p5: "getPopulation (setCell ?s4 12 12 True) = 5"
    using b by (simp add: getPopulation_setCell[OF wf4] g4 p4)
  show ?thesis
    unfolding glider_stamps fst_conv snd_conv using g5 p5 by blast
qed

lemma well_formed_full_13x13: "well_formed full_13x13"
  by (simp add: well_formed_def full_13x13_def)

theorem loadPattern_glider_witness:
  "getPopulation full_13x13 = 169 \<and>
   (\<forall>x y. getCell (snd (loadPattern full_13x13 ''glider'' 10 10)) x y
            = ((x, y) \<in> {(11, 10), (12, 11), (10, 12), (11, 12), (12, 12)})) \<and>
   getPopulation (snd (loadPattern full_13x13 ''glider'' 10 10)) = 5 \<and>
   fst (loadPattern full_13x13 ''glider'' 10 10) = None"
proof -
  have "13 \<le> width full_13x13" "13 \<le> height full_13x13"
    by (simp_all add: full_13x13_def)
  note loadPattern_glider[OF well_formed_full_13x13 this]
  moreover have "getPopulation full_13x13 = 169"
    by (simp add: getPopulation_count full_13x13_def)
  ultimately show ?thesis by blast
qed

subsection \<open>Snapshots\<close>

lemma preservesI:
  "(\<And>s. away a s \<Longrightarrow> away a (f s) \<and> heap (f s) a = heap s a) \<Longrightarrow> preserves a f"
  by (simp add: preserves_def)

lemma preservesD:
  "preserves a f \<Longrightarrow> away a s \<Longrightarrow> away a (f s) \<and> heap (f s) a = heap s a"
  by (simp add: preserves_def)

lemma preserves_comp: "preserves a f \<Longrightarrow> preserves a g \<Longrightarrow> preserves a (\<lambda>s. g (f s))"
  by (simp add: preserves_def)

lemma preserves_fold:
  assumes "\<And>k. preserves a (f k)"
  shows "preserves a (fold f ks)"
proof (induction ks)
  case Nil
  show ?case by (simp add: preserves_def)
next
  case (Cons k ks)
  from preserves_comp[OF assms[of k] Cons.IH] show ?case by (simp add: comp_def)
qed

lemma preserves_setCell: "preserves a (\<lambda>s. setCell s x y v)"
  by (rule preservesI) (simp add: away_def setCell_def)

lemma preserves_toggleCell: "preserves a (\<lambda>s. toggleCell s x y)"
  by (rule preservesI) (simp add: away_def toggleCell_def Let_def)

lemma preserves_clear: "preserves a clear"
  by (rule preservesI) (simp add: away_def)

lemma preserves_step_cell: "preserves a (\<lambda>s. step_cell s x y)"
  by (rule preservesI) (simp add: away_def step_cell_write)

lemma preserves_step_row: "preserves a (\<lambda>s. step_row s y)"
proof (rule preservesI)
  fix s assume "away a s"
  from preservesD[OF preserves_fold[of a "\<lambda>x s. step_cell s x y", OF preserves_step_cell] this]
  show "away a (step_row s y) \<and> heap (step_row s y) a = heap s a"
    by (simp add: step_row_def)
qed

lemma preserves_step_fill: "preserves a step_fill"
proof (rule preservesI)
  fix s assume "away a s"
  from preservesD[OF preserves_fold[of a "\<lambda>y s. step_row s y", OF preserves_step_row] this]
  show "away a (step_fill s) \<and> heap (step_fill s) a = heap s a"
    by (simp add: step_fill_def)
qed

lemma preserves_step: "preserves a step"
proof (rule preservesI)
  fix s assume "away a s"
  from preservesD[OF preserves_step_fill this]
  show "away a (step s) \<and> heap (step s) a = heap s a"
    by (simp add: step_def Let_def away_def)
qed

lemma preserves_randomize: "preserves a (\<lambda>s. randomize s draws)"
proof (rule preservesI)
  fix s assume "away a s"
  have "preserves a (\<lambda>s. write_arr s (currentGrid s) (int i) (draws i < 3 / 10))" for i
    by (rule preservesI) (simp add: away_def)
  from preservesD[OF preserves_fold[of a
      "\<lambda>i s. write_arr s (currentGrid s) (int i) (draws i < 3 / 10)", OF this] \<open>away a s\<close>]
  show "away a (randomize s draws) \<and> heap (randomize s draws) a = heap s a"
    by (simp add: randomize_def away_def)
qed

lemma preserves_stamp_row: "preserves a (\<lambda>s. stamp_row pd startX startY s y)"
proof (rule preservesI)
  fix s assume "away a s"
  have "preserves a (\<lambda>s. if pd ! y ! x = 1
          then setCell s (startX + int x) (startY + int y) True else s)" for x
    using preserves_setCell[of a] by (simp add: preserves_def)
  from preservesD[OF preserves_fold[of a
      "\<lambda>x s. if pd ! y ! x = 1 then setCell s (startX + int x) (startY + int y) True else s",
      OF this] \<open>away a s\<close>]
  show "away a (stamp_row pd startX startY s y) \<and> heap (stamp_row pd startX startY s y) a = heap s a"
    by (simp add: stamp_row_def)
qed

lemma preserves_loadPattern: "preserves a (\<lambda>s. snd (loadPattern s pattern startX startY))"
proof (rule preservesI)
  fix s assume a: "away a s"
  from preservesD[OF preserves_clear a]
  have c: "away a (clear s)" "heap (clear s) a = heap s a" by simp_all
  show "away a (snd (loadPattern s pattern startX startY)) \<and>
        heap (snd (loadPattern s pattern startX startY)) a = heap s a"
  proof (cases "patterns pattern")
    case None
    with c show ?thesis by (simp add: loadPattern_state)
  next
    case (Some pd)
    from preservesD[OF preserves_fold[of a "\<lambda>y s. stamp_row pd startX startY s y",
        OF preserves_stamp_row] c(1)] c(2) Some
    show ?thesis by (simp add: loadPattern_state)
  qed
qed

lemma preserves_apply_mutation: "preserves a (apply_mutation m)"
proof (cases m)
  case Step
  have "apply_mutation Step = step" by (intro ext) simp
  with Step show ?thesis by (simp add: preserves_step)
next
  case (SetCell x y v)
  have "apply_mutation (SetCell x y v) = (\<lambda>s. setCell s x y v)" by (intro ext) simp
  with SetCell show ?thesis by (simp add: preserves_setCell)
next
  case (ToggleCell x y)
  have "apply_mutation (ToggleCell x y) = (\<lambda>s. toggleCell s x y)" by (intro ext) simp
  with ToggleCell show ?thesis by (simp add: preserves_toggleCell)
next
  case Clear
  have "apply_mutation Clear = clear" by (intro ext) simp
  with Clear show ?thesis by (simp add: preserves_clear)
next
  case (Randomize d)
  have "apply_mutation (Randomize d) = (\<lambda>s. randomize s d)" by (intro ext) simp
  with Randomize show ?thesis by (simp add: preserves_randomize)
next
  case (LoadPattern p x y)
  have "apply_mutation (LoadPattern p x y) = (\<lambda>s. snd (loadPattern s p x y))"
    by (intro ext) simp
  with LoadPattern show ?thesis by (simp add: preserves_loadPattern)
qed

text \<open>
  Claim C7. \<open>getGridState\<close> returns a new array that equals the current field cell
  for cell, and no later sequence of \<open>step\<close>, \<open>setCell\<close>, \<open>toggleCell\<close>, \<open>clear\<close>,
  \<open>randomize\<close> and \<open>loadPattern\<close> calls changes that array.
\<close>

theorem snapshot_independent:
  assumes alloc: "currentGrid s < heap_next s" "nextGrid s < heap_next s"
    and snap: "getGridState s = (a, s')"
  shows "heap s' a = heap s (currentGrid s) \<and>
         heap s' (currentGrid s') = heap s (currentGrid s) \<and>
         heap (fold apply_mutation ms s') a = heap s (currentGrid s)"
proof -
  from snap have a: "a = heap_next s"
    and s': "s' = s\<lparr>heap := (heap s)(heap_next s := heap s (currentGrid s)),
                    heap_next := Suc (heap_next s)\<rparr>"
    by (auto simp: getGridState_def)
  have copy: "heap s' a = heap s (currentGrid s)" by (simp add: a s')
  have same: "heap s' (currentGrid s') = heap s (currentGrid s)"
    using alloc by (simp add: s')
  have "away a s'" using alloc by (simp add: away_def a s')
  from preservesD[OF preserves_fold[of a apply_mutation, OF preserves_apply_mutation] this]
  have "heap (fold apply_mutation ms s') a = heap s' a" by simp
  with copy same show ?thesis by simp
qed

theorem snapshot_independent_witness:
  "heap (fold apply_mutation
           [ToggleCell 0 0, Step, SetCell 4 2 True, Randomize (\<lambda>i. 0),
            LoadPattern ''toad'' 0 0, Clear]
           (snd (getGridState blinker_5x3)))
     (fst (getGridState blinker_5x3))
   = [False, False, False, False, False,
      False, True,  True,  True,  False,
      False, False, False, False, False]"
proof -
  have alloc: "currentGrid blinker_5x3 < heap_next blinker_5x3"
    "nextGrid blinker_5x3 < heap_next blinker_5x3"
    by (simp_all add: blinker_5x3_def)
  have snap: "getGridState blinker_5x3
      = (fst (getGridState blinker_5x3), snd (getGridState blinker_5x3))" by simp
  have "heap (fold apply_mutation
           [ToggleCell 0 0, Step, SetCell 4 2 True, Randomize (\<lambda>i. 0),
            LoadPattern ''toad'' 0 0, Clear]
           (snd (getGridState blinker_5x3)))
     (fst (getGridState blinker_5x3)) = heap blinker_5x3 (currentGrid blinker_5x3)"
    using snapshot_independent[OF alloc snap] by blast
  also have "\<dots> = [False, False, False, False, False,
      False, True,  True,  True,  False,
      False, False, False, False, False]"
    by (simp add: blinker_5x3_def)
  finally show ?thesis .
qed

subsection \<open>The canvas renderer\<close>

lemma calculateCellSize_fields:
  "cellSize (calculateCellSize r game iw ih)
     = (if unclamped_size r game iw ih < 4 then 4 else unclamped_size r game iw ih)"
  "showGrid (calculateCellSize r game iw ih)
     = (if unclamped_size r game iw ih < 4 then False else 6 \<le> unclamped_size r game iw ih)"
  unfolding calculateCellSize_def Let_def unclamped_size_def[symmetric] by simp_all

lemma unclamped_size_le: "unclamped_size r game iw ih \<le> 20"
  unfolding unclamped_size_def by (rule min.cobounded2)

lemma cellSize_after_layout: "0 < cellSize (calculateCellSize r game iw ih)"
  unfolding calculateCellSize_fields by simp

text \<open>The model runs: the layout of the 5 by 3 grid in a window of 1024 by 768.\<close>

lemma layout_1024x768:
  "calculateCellSize renderer_0 blinker_5x3 1024 768 =
     \<lparr>cellSize = 20, showGrid = True, offsetX = 462, offsetY = 354,
      logicalWidth = None, logicalHeight = None\<rparr>"
  by (simp add: calculateCellSize_def renderer_0_def blinker_5x3_def
      availableWidth_def availableHeight_def js_or_def Let_def)

text \<open>
  Claim C8. For a grid with at least one column and one row, \<open>canvasToGrid\<close> maps
  every pointer position, negative or beyond the canvas, to a cell of the grid:
  the column is in \<open>[0, width - 1]\<close> and the row in \<open>[0, height - 1]\<close>.
\<close>

theorem canvasToGrid_in_grid:
  assumes "1 \<le> width game" and "1 \<le> height game" and "0 < cellSize r"
  shows "0 \<le> fst (canvasToGrid r game rect_left rect_top canvasX canvasY) \<and>
         fst (canvasToGrid r game rect_left rect_top canvasX canvasY) \<le> width game - 1 \<and>
         0 \<le> snd (canvasToGrid r game rect_left rect_top canvasX canvasY) \<and>
         snd (canvasToGrid r game rect_left rect_top canvasX canvasY) \<le> height game - 1"
proof -
  have clamp: "0 \<le> max 0 (min v (n - 1)) \<and> max 0 (min v (n - 1)) \<le> n - 1"
    if "1 \<le> n" for v n :: int
    using that by auto
  show ?thesis
    unfolding canvasToGrid_def Let_def fst_conv snd_conv
    using clamp[OF assms(1)] clamp[OF assms(2)] by blast
qed

text \<open>
  A pointer left of and far below the canvas lands in the bottom-left cell, a pointer
  over the middle of the grid in the middle cell.
\<close>

lemma canvasToGrid_corner:
  "canvasToGrid (calculateCellSize renderer_0 blinker_5x3 1024 768) blinker_5x3 0 0 (-50) 100000
     = (0, 2)"
  unfolding layout_1024x768 by (simp add: canvasToGrid_def blinker_5x3_def Let_def)

lemma canvasToGrid_middle:
  "canvasToGrid (calculateCellSize renderer_0 blinker_5x3 1024 768) blinker_5x3 0 0 505.5 380
     = (2, 1)"
  unfolding layout_1024x768 by (simp add: canvasToGrid_def blinker_5x3_def Let_def)

theorem canvasToGrid_in_grid_witness:
  "canvasToGrid (calculateCellSize renderer_0 blinker_5x3 1024 768) blinker_5x3 0 0 (-50) 100000
     = (0, 2) \<and>
   0 \<le> fst (canvasToGrid (calculateCellSize renderer_0 blinker_5x3 1024 768) blinker_5x3
              0 0 (-50) 100000) \<and>
   fst (canvasToGrid (calculateCellSize renderer_0 blinker_5x3 1024 768) blinker_5x3
              0 0 (-50) 100000) \<le> width blinker_5x3 - 1 \<and>
   0 \<le> snd (canvasToGrid (calculateCellSize renderer_0 blinker_5x3 1024 768) blinker_5x3
              0 0 (-50) 100000) \<and>
   snd (canvasToGrid (calculateCellSize renderer_0 blinker_5x3 1024 768) blinker_5x3
              0 0 (-50) 100000) \<le> height blinker_5x3 - 1"
proof -
  have "1 \<le> width blinker_5x3" "1 \<le> height blinker_5x3"
    by (simp_all add: blinker_5x3_def)
  from canvasToGrid_in_grid[OF this cellSize_after_layout, of renderer_0 blinker_5x3 1024 768
      0 0 "-50" 100000] canvasToGrid_corner
  show ?thesis by blast
qed

text \<open>
  Claim C9. For a grid with at least one column and one row, after
  \<open>calculateCellSize\<close> the cell size is from 4 to 20; the grid lines are off whenever
  the cell size is below 6; and when the size before the clamp is at least 4, the grid
  lines are on iff the cell size is at least 6.
\<close>

theorem calculateCellSize_bounds:
  assumes "1 \<le> width game" and "1 \<le> height game"
  shows "4 \<le> cellSize (calculateCellSize r game iw ih) \<and>
         cellSize (calculateCellSize r game iw ih) \<le> 20 \<and>
         (cellSize (calculateCellSize r game iw ih) < 6 \<longrightarrow>
            showGrid (calculateCellSize r game iw ih) = False) \<and>
         (4 \<le> unclamped_size r game iw ih \<longrightarrow>
            showGrid (calculateCellSize r game iw ih)
              = (6 \<le> cellSize (calculateCellSize r game iw ih)))"
  unfolding calculateCellSize_fields using unclamped_size_le[of r game iw ih] by auto

lemma calculateCellSize_27:
  "cellSize (calculateCellSize renderer_0 blinker_5x3 27 768) = 5"
  "showGrid (calculateCellSize renderer_0 blinker_5x3 27 768) = False"
  "unclamped_size renderer_0 blinker_5x3 27 768 = 5"
  by (simp_all add: calculateCellSize_def unclamped_size_def renderer_0_def blinker_5x3_def
      availableWidth_def availableHeight_def js_or_def Let_def)

theorem calculateCellSize_bounds_witness:
  "4 \<le> cellSize (calculateCellSize renderer_0 blinker_5x3 27 768) \<and>
   cellSize (calculateCellSize renderer_0 blinker_5x3 27 768) \<le> 20 \<and>
   cellSize (calculateCellSize renderer_0 blinker_5x3 27 768) < 6 \<and>
   showGrid (calculateCellSize renderer_0 blinker_5x3 27 768) = False \<and>
   4 \<le> unclamped_size renderer_0 blinker_5x3 27 768"
proof -
  have "1 \<le> width blinker_5x3" "1 \<le> height blinker_5x3"
    by (simp_all add: blinker_5x3_def)
  from calculateCellSize_bounds[OF this, of renderer_0 27 768] show ?thesis
    by (simp add: calculateCellSize_27)
qed

subsection \<open>Well-formedness is an invariant\<close>

text \<open>
  The constructor builds a well-formed engine from non-negative dimensions, and every
  method keeps an engine well formed: the hypothesis \<open>well_formed\<close> of the theorems
  above holds in every state that is reached from an engine constructed with
  non-negative dimensions.
\<close>

lemma new_GameOfLife_well_formed:
  assumes "0 \<le> w" "0 \<le> h" "w * h < 2 ^ 32"
  shows "\<exists>s. new_GameOfLife w h hp n = Inr s \<and> well_formed s \<and>
             width s = w \<and> height s = h \<and> getGeneration s = 0 \<and> getPopulation s = 0"
proof -
  from assms have "\<not> w * h < 0" by (simp add: not_less)
  with assms(3) have "new_GameOfLife w h hp n =
      Inr \<lparr>width = w, height = h, generation = 0, currentGrid = n, nextGrid = Suc n,
           heap = hp(n := replicate (nat (w * h)) False,
                     Suc n := replicate (nat (w * h)) False),
           heap_next = Suc (Suc n)\<rparr>"
    unfolding new_GameOfLife_def by (simp only: not_le[symmetric] simp_thms if_False)
  with assms(1,2) show ?thesis
    by (simp add: well_formed_def getGeneration_def getPopulation_count)
qed

lemma well_formed_write_current:
  assumes "well_formed s" "0 \<le> i" "i < int (length (heap s (currentGrid s)))"
  shows "well_formed (write_arr s (currentGrid s) i v)"
  using assms by (simp add: well_formed_def length_arr_set)

lemma well_formed_toggleCell:
  assumes "well_formed s"
  shows "well_formed (toggleCell s x y)"
proof (cases "in_bounds s x y")
  case True
  with wf_index[OF assms True] assms show ?thesis
    by (simp add: toggleCell_def Let_def well_formed_write_current)
next
  case False
  then show ?thesis using assms by (auto simp: toggleCell_def in_bounds_def)
qed

lemma well_formed_randomize_loop:
  assumes "well_formed s" "\<forall>i \<in> set ks. i < length (heap s (currentGrid s))"
  shows "well_formed (fold (\<lambda>i s. write_arr s (currentGrid s) (int i) (draws i < 3 / 10)) ks s) \<and>
         length (heap (fold (\<lambda>i s. write_arr s (currentGrid s) (int i) (draws i < 3 / 10)) ks s)
                   (currentGrid s)) = length (heap s (currentGrid s)) \<and>
         currentGrid (fold (\<lambda>i s. write_arr s (currentGrid s) (int i) (draws i < 3 / 10)) ks s)
           = currentGrid s"
  using assms
proof (induction ks arbitrary: s)
  case Nil
  then show ?case by simp
next
  case (Cons k ks)
  let ?s = "write_arr s (currentGrid s) (int k) (draws k < 3 / 10)"
  from Cons.prems have k: "int k < int (length (heap s (currentGrid s)))" by simp
  have wf: "well_formed ?s" using Cons.prems(1) k by (simp add: well_formed_write_current)
  have len: "length (heap ?s (currentGrid ?s)) = length (heap s (currentGrid s))"
    using k by (simp add: length_arr_set)
  from Cons.prems(2) len have "\<forall>i \<in> set ks. i < length (heap ?s (currentGrid ?s))" by simp
  from Cons.IH[OF wf this] len show ?case by simp
qed

lemma well_formed_generation: "well_formed (s\<lparr>generation := g\<rparr>) = well_formed s"
  by (simp add: well_formed_def)

lemma well_formed_randomize:
  assumes wf: "well_formed s"
  shows "well_formed (randomize s draws)"
proof -
  have "\<forall>i \<in> set [0..<length (heap s (currentGrid s))]. i < length (heap s (currentGrid s))"
    by simp
  from well_formed_randomize_loop[OF wf this, of draws] show ?thesis
    unfolding randomize_def well_formed_generation by blast
qed

lemma well_formed_fold:
  assumes "\<And>k s. well_formed s \<Longrightarrow> well_formed (f k s)"
  shows "well_formed s \<Longrightarrow> well_formed (fold f ks s)"
  by (induction ks arbitrary: s) (simp_all add: assms)

lemma well_formed_stamp_row:
  "well_formed s \<Longrightarrow> well_formed (stamp_row pd startX startY s y)"
  unfolding stamp_row_def by (rule well_formed_fold) (simp_all add: well_formed_setCell)

lemma well_formed_loadPattern:
  assumes "well_formed s"
  shows "well_formed (snd (loadPattern s pattern startX startY))"
proof (cases "patterns pattern")
  case None
  then show ?thesis using assms by (simp add: loadPattern_state well_formed_clear)
next
  case (Some pd)
  have "well_formed (fold (\<lambda>y s. stamp_row pd startX startY s y) [0..<length pd] (clear s))"
    by (rule well_formed_fold) (simp_all add: well_formed_stamp_row well_formed_clear assms)
  with Some show ?thesis by (simp add: loadPattern_state)
qed

lemma well_formed_apply_mutation: "well_formed s \<Longrightarrow> well_formed (apply_mutation m s)"
  by (cases m)
    (simp_all add: well_formed_step well_formed_setCell well_formed_toggleCell
      well_formed_clear well_formed_randomize well_formed_loadPattern)

end
